theory Spec2Isabelle
  imports Complex_Main
begin

section \<open>The host environment of js/main.js\<close>

text \<open>
  js/main.js is a page-load script of three immediately invoked functions. It selects
  elements, registers three event listeners and, inside the listeners, adds and removes
  class names. The model keeps the pieces of the browser the script touches:
  \<^item> elements are node identities (\<open>elem\<close>), so that two selectors may return the same node;
  \<^item> \<open>classList\<close> of an element is a DOMTokenList: an ordered list of distinct tokens;
  \<^item> \<open>querySelector\<close> returns \<open>None\<close> for JavaScript's \<open>null\<close>, and reading a property
    of \<open>null\<close> throws \<open>TypeError\<close>;
  \<^item> \<open>scrollTop\<close> is a JavaScript number; the reals contain every finite double and
    \<open>Math.max\<close> and \<open>>\<close> on finite doubles are the real ones;
  \<^item> \<open>document.documentElement\<close> and \<open>document.body\<close> may each be \<open>null\<close>:
    \<open>documentElement_present\<close> and \<open>body_present\<close> say whether they are elements, and
    the offset stored for an absent one is never read.
\<close>

type_synonym elem = nat

datatype error = TypeError

definition classList_contains :: "string list \<Rightarrow> string \<Rightarrow> bool" where
  "classList_contains cl c = (c \<in> set cl)"

definition classList_add :: "string list \<Rightarrow> string \<Rightarrow> string list" where
  "classList_add cl c = (if c \<in> set cl then cl else cl @ [c])"

definition classList_remove :: "string list \<Rightarrow> string \<Rightarrow> string list" where
  "classList_remove cl c = filter (\<lambda>x. x \<noteq> c) cl"

record dom =
  innerWidth :: int
  querySelector :: "string \<Rightarrow> elem option"
  querySelectorAll :: "string \<Rightarrow> elem list"
  classList :: "elem \<Rightarrow> string list"
  documentElement_present :: bool
  documentElement_scrollTop :: real
  body_present :: bool
  body_scrollTop :: real

definition add_class :: "elem \<Rightarrow> string \<Rightarrow> dom \<Rightarrow> dom" where
  "add_class e c d = d\<lparr>classList := (classList d)(e := classList_add (classList d e) c)\<rparr>"

definition remove_class :: "elem \<Rightarrow> string \<Rightarrow> dom \<Rightarrow> dom" where
  "remove_class e c d = d\<lparr>classList := (classList d)(e := classList_remove (classList d e) c)\<rparr>"

definition has_class :: "elem \<Rightarrow> string \<Rightarrow> dom \<Rightarrow> bool" where
  "has_class e c d = classList_contains (classList d e) c"

section \<open>The three listeners\<close>

text \<open>
  Each listener is a closure over the variables of its enclosing function.
  \<open>MenuBtnOnclick menuBtn nav\<close> is the function assigned to \<open>menuBtn.onclick\<close>; it exists
  only when \<open>menuBtn\<close> is an element, since the assignment itself dereferences it.
  \<open>BodyClick menuBtn nav\<close> is the click listener of the body, \<open>WindowScroll backToTop\<close>
  the scroll listener of the window.

  A listener returns the document after it, whether it called \<open>e.stopPropagation()\<close>,
  and the exception that ended it, if any. The statements run in source order, so the
  changes made before a throw stay. The scroll listener first evaluates
  \<open>document.documentElement.scrollTop\<close> and then \<open>document.body.scrollTop\<close>; either
  read throws when its object is \<open>null\<close>, before any class is touched.
\<close>

datatype handler =
    MenuBtnOnclick elem "elem option"
  | BodyClick elem "elem option"
  | WindowScroll "elem option"

fun run_handler :: "handler \<Rightarrow> dom \<Rightarrow> dom \<times> bool \<times> error option" where
  "run_handler (MenuBtnOnclick menuBtn nav) d =
     (if classList_contains (classList d menuBtn) ''active'' then
        (case nav of
           None \<Rightarrow> (remove_class menuBtn ''active'' d, True, Some TypeError)
         | Some n \<Rightarrow>
             (remove_class n ''nav-show'' (remove_class menuBtn ''active'' d), True, None))
      else
        (case nav of
           None \<Rightarrow> (d, True, Some TypeError)
         | Some n \<Rightarrow>
             (add_class menuBtn ''active'' (add_class n ''nav-show'' d), True, None)))"
| "run_handler (BodyClick menuBtn nav) d =
     (case nav of
        None \<Rightarrow> (d, False, Some TypeError)
      | Some n \<Rightarrow>
          (remove_class menuBtn ''active'' (remove_class n ''nav-show'' d), False, None))"
| "run_handler (WindowScroll backToTop) d =
     (if documentElement_present d then
        (if body_present d then
           (let scrollTop = max (documentElement_scrollTop d) (body_scrollTop d) in
            if scrollTop > 200 then
              (case backToTop of
                 None \<Rightarrow> (d, False, Some TypeError)
               | Some t \<Rightarrow> (add_class t ''back-to-top-show'' d, False, None))
            else
              (case backToTop of
                 None \<Rightarrow> (d, False, Some TypeError)
               | Some t \<Rightarrow> (remove_class t ''back-to-top-show'' d, False, None)))
         else (d, False, Some TypeError))
      else (d, False, Some TypeError))"

section \<open>Registration at page load\<close>

text \<open>
  A page is the list of registered listeners, in registration order. Each entry records
  how its function was installed: by \<open>addEventListener\<close> (\<open>Listener\<close>) or by assignment to
  the \<open>onclick\<close> attribute of an element (\<open>OnAttribute\<close>). An element has at most one
  \<open>onclick\<close> function: the first assignment appends an entry, a later one replaces the
  function of that entry where it stands. \<open>addEventListener\<close> always appends, since every
  run of the script creates new function objects. An uncaught exception ends the script:
  the functions after it do not run, the registrations before it stay.
\<close>

datatype target = Element elem | Window

datatype slot = OnAttribute | Listener

type_synonym page = "(target \<times> string \<times> slot \<times> handler) list"

definition addEventListener :: "target \<Rightarrow> string \<Rightarrow> handler \<Rightarrow> page \<Rightarrow> page" where
  "addEventListener t ty h p = p @ [(t, ty, Listener, h)]"

definition is_onclick_of :: "elem \<Rightarrow> target \<times> string \<times> slot \<times> handler \<Rightarrow> bool" where
  "is_onclick_of e r =
     (fst r = Element e \<and> fst (snd r) = ''click'' \<and> fst (snd (snd r)) = OnAttribute)"

fun set_onclick :: "elem \<Rightarrow> handler \<Rightarrow> page \<Rightarrow> page" where
  "set_onclick e h [] = [(Element e, ''click'', OnAttribute, h)]"
| "set_onclick e h (r # p) =
     (if is_onclick_of e r then (Element e, ''click'', OnAttribute, h) # p
      else r # set_onclick e h p)"

definition clickMenu :: "dom \<Rightarrow> page \<Rightarrow> page \<times> error option" where
  "clickMenu d p =
     (if innerWidth d \<le> 770 then
        (let menuBtn = querySelector d ''#headerMenu'';
             nav = querySelector d ''#headerNav''
         in case menuBtn of
              None \<Rightarrow> (p, Some TypeError)
            | Some b \<Rightarrow>
                (let p1 = set_onclick b (MenuBtnOnclick b nav) p
                 in case querySelector d ''body'' of
                      None \<Rightarrow> (p1, Some TypeError)
                    | Some body \<Rightarrow>
                        (addEventListener (Element body) ''click'' (BodyClick b nav) p1, None)))
      else (p, None))"

definition backToTop :: "dom \<Rightarrow> page \<Rightarrow> page \<times> error option" where
  "backToTop d p =
     (let backToTop = querySelector d ''.back-to-top'';
          backToTopA = querySelector d ''.back-to-top a''
      in (addEventListener Window ''scroll'' (WindowScroll backToTop) p, None))"

definition hover :: "dom \<Rightarrow> page \<Rightarrow> page \<times> error option" where
  "hover d p = (let demoItems = querySelectorAll d ''.grid-item'' in (p, None))"

definition main_js :: "dom \<Rightarrow> page \<Rightarrow> page \<times> error option" where
  "main_js d p =
     (case clickMenu d p of
        (p1, Some e) \<Rightarrow> (p1, Some e)
      | (p1, None) \<Rightarrow>
          (case backToTop d p1 of
             (p2, Some e) \<Rightarrow> (p2, Some e)
           | (p2, None) \<Rightarrow> hover d p2))"

text \<open>The script with its third function left out, for the comparison with \<open>main_js\<close>.\<close>

definition main_js_omitting_hover :: "dom \<Rightarrow> page \<Rightarrow> page \<times> error option" where
  "main_js_omitting_hover d p =
     (case clickMenu d p of
        (p1, Some e) \<Rightarrow> (p1, Some e)
      | (p1, None) \<Rightarrow> backToTop d p1)"

section \<open>Event dispatch\<close>

text \<open>
  A click carries its propagation path: the target and its ancestor elements, innermost
  first; after the elements the event reaches the window. At each node the listeners
  registered there run in registration order; an exception in one is reported and does
  not stop the others; once a listener has stopped propagation the remaining listeners
  of the same node still run and no later node is visited. A scroll event is delivered
  to the window after the browser has updated the two scroll offsets; it does not create
  or remove the root element or the body. A resize changes
  the viewport width. The dispatcher also returns the listeners it fired, in order.
\<close>

datatype event = Click "elem list" | Scroll real real | Resize int

definition listeners_at :: "page \<Rightarrow> target \<Rightarrow> string \<Rightarrow> handler list" where
  "listeners_at p t ty =
     map (\<lambda>r. snd (snd (snd r))) (filter (\<lambda>r. fst r = t \<and> fst (snd r) = ty) p)"

fun run_listeners :: "handler list \<Rightarrow> dom \<Rightarrow> dom \<times> bool \<times> handler list" where
  "run_listeners [] d = (d, False, [])"
| "run_listeners (h # hs) d =
     (case run_handler h d of
        (d1, s1, _) \<Rightarrow>
          (case run_listeners hs d1 of
             (d2, s2, fired) \<Rightarrow> (d2, s1 \<or> s2, h # fired)))"

fun bubble :: "page \<Rightarrow> elem list \<Rightarrow> dom \<Rightarrow> dom \<times> handler list" where
  "bubble p [] d =
     (case run_listeners (listeners_at p Window ''click'') d of
        (d1, _, fired) \<Rightarrow> (d1, fired))"
| "bubble p (e # es) d =
     (case run_listeners (listeners_at p (Element e) ''click'') d of
        (d1, stopped, fired) \<Rightarrow>
          if stopped then (d1, fired)
          else (case bubble p es d1 of (d2, fired2) \<Rightarrow> (d2, fired @ fired2)))"

fun dispatch :: "page \<Rightarrow> event \<Rightarrow> dom \<Rightarrow> dom \<times> handler list" where
  "dispatch p (Click path) d = bubble p path d"
| "dispatch p (Scroll x y) d =
     (case run_listeners (listeners_at p Window ''scroll'')
             (d\<lparr>documentElement_scrollTop := x, body_scrollTop := y\<rparr>) of
        (d1, _, fired) \<Rightarrow> (d1, fired))"
| "dispatch p (Resize w) d =
     (case run_listeners (listeners_at p Window ''resize'') (d\<lparr>innerWidth := w\<rparr>) of
        (d1, _, fired) \<Rightarrow> (d1, fired))"

definition step :: "page \<Rightarrow> event \<Rightarrow> dom \<Rightarrow> dom" where
  "step p ev d = fst (dispatch p ev d)"

fun run :: "page \<Rightarrow> event list \<Rightarrow> dom \<Rightarrow> dom" where
  "run p [] d = d"
| "run p (ev # evs) d = run p evs (step p ev d)"

text \<open>
  A sample document for concrete evaluation: body 0, \<open>#headerMenu\<close> 1, \<open>#headerNav\<close> 2,
  \<open>.back-to-top\<close> 3 and its link 4, no class set, not scrolled, root element and body
  present, viewport width \<open>w\<close>.
\<close>

definition sample_dom :: "int \<Rightarrow> dom" where
  "sample_dom w =
     \<lparr>innerWidth = w,
      querySelector = (\<lambda>s. if s = ''body'' then Some 0
                           else if s = ''#headerMenu'' then Some 1
                           else if s = ''#headerNav'' then Some 2
                           else if s = ''.back-to-top'' then Some 3
                           else if s = ''.back-to-top a'' then Some 4
                           else None),
      querySelectorAll = (\<lambda>s. []),
      classList = (\<lambda>e. []),
      documentElement_present = True,
      documentElement_scrollTop = 0,
      body_present = True,
      body_scrollTop = 0\<rparr>"

section \<open>Auxiliary facts\<close>

subsection \<open>What the script registers\<close>

lemmas script_defs = main_js_def clickMenu_def backToTop_def hover_def addEventListener_def
  is_onclick_of_def Let_def

lemma run_append: "run p (evs @ evs') d = run p evs' (run p evs d)"
  by (induction evs arbitrary: d) simp_all

lemma main_js_wide:
  "770 < innerWidth doc \<Longrightarrow>
   main_js doc [] = ([(Window, ''scroll'', Listener, WindowScroll (querySelector doc ''.back-to-top''))], None)"
  by (simp add: script_defs)

lemma main_js_narrow:
  "innerWidth doc \<le> 770 \<Longrightarrow> querySelector doc ''#headerMenu'' = Some b \<Longrightarrow>
   querySelector doc ''body'' = Some bd \<Longrightarrow>
   main_js doc [] =
     ([(Element b, ''click'', OnAttribute, MenuBtnOnclick b (querySelector doc ''#headerNav'')),
       (Element bd, ''click'', Listener, BodyClick b (querySelector doc ''#headerNav'')),
       (Window, ''scroll'', Listener, WindowScroll (querySelector doc ''.back-to-top''))], None)"
  by (simp add: script_defs)

lemma main_js_no_menu:
  "innerWidth doc \<le> 770 \<Longrightarrow> querySelector doc ''#headerMenu'' = None \<Longrightarrow>
   main_js doc [] = ([], Some TypeError)"
  by (simp add: script_defs)

lemma main_js_no_body:
  "innerWidth doc \<le> 770 \<Longrightarrow> querySelector doc ''#headerMenu'' = Some b \<Longrightarrow>
   querySelector doc ''body'' = None \<Longrightarrow>
   main_js doc [] =
     ([(Element b, ''click'', OnAttribute, MenuBtnOnclick b (querySelector doc ''#headerNav''))],
      Some TypeError)"
  by (simp add: script_defs)

lemma main_js_cases:
  obtains (wide) "770 < innerWidth doc"
  | (narrow) b bd where "innerWidth doc \<le> 770" "querySelector doc ''#headerMenu'' = Some b"
      "querySelector doc ''body'' = Some bd"
  | (no_menu) "innerWidth doc \<le> 770" "querySelector doc ''#headerMenu'' = None"
  | (no_body) b where "innerWidth doc \<le> 770" "querySelector doc ''#headerMenu'' = Some b"
      "querySelector doc ''body'' = None"
  by (cases "770 < innerWidth doc"; cases "querySelector doc ''#headerMenu''";
      cases "querySelector doc ''body''") auto

lemma scroll_listeners_loaded:
  assumes "snd (main_js doc []) = None"
  shows "listeners_at (fst (main_js doc [])) Window ''scroll'' =
           [WindowScroll (querySelector doc ''.back-to-top'')]"
proof (cases doc rule: main_js_cases)
  case wide
  from main_js_wide [OF wide] show ?thesis by (simp add: listeners_at_def)
next
  case (narrow b bd)
  from main_js_narrow [OF narrow] show ?thesis by (simp add: listeners_at_def)
next
  case no_menu
  from main_js_no_menu [OF no_menu] assms show ?thesis by simp
next
  case (no_body b)
  from main_js_no_body [OF no_body] assms show ?thesis by simp
qed

lemma has_class_add [simp]:
  "has_class e c (add_class e' c' d) = ((e = e' \<and> c = c') \<or> has_class e c d)"
  by (auto simp: has_class_def add_class_def classList_contains_def classList_add_def)

lemma has_class_remove [simp]:
  "has_class e c (remove_class e' c' d) = (\<not> (e = e' \<and> c = c') \<and> has_class e c d)"
  by (auto simp: has_class_def remove_class_def classList_contains_def classList_remove_def)

lemma scroll_step:
  assumes "listeners_at p Window ''scroll'' = [WindowScroll (Some t)]"
    and "documentElement_present d" and "body_present d"
  shows "step p (Scroll x y) d =
     (if 200 < max x y
      then add_class t ''back-to-top-show'' (d\<lparr>documentElement_scrollTop := x, body_scrollTop := y\<rparr>)
      else remove_class t ''back-to-top-show'' (d\<lparr>documentElement_scrollTop := x, body_scrollTop := y\<rparr>))"
  using assms by (simp add: step_def Let_def)

subsection \<open>Dispatch, projection by projection\<close>

lemma listeners_at_mem:
  "h \<in> set (listeners_at p t ty) \<longleftrightarrow> (\<exists>k. (t, ty, k, h) \<in> set p)"
  by (force simp: listeners_at_def)

lemma run_listeners_Cons_fst:
  "fst (run_listeners (h # hs) d) = fst (run_listeners hs (fst (run_handler h d)))"
  by (auto split: prod.splits)

lemma run_listeners_Cons_stopped:
  "fst (snd (run_listeners (h # hs) d)) =
     (fst (snd (run_handler h d)) \<or> fst (snd (run_listeners hs (fst (run_handler h d)))))"
  by (auto split: prod.splits)

lemma run_listeners_Cons_fired:
  "snd (snd (run_listeners (h # hs) d)) = h # snd (snd (run_listeners hs (fst (run_handler h d))))"
  by (auto split: prod.splits)

lemma run_listeners_fired: "snd (snd (run_listeners hs d)) = hs"
  by (induction hs arbitrary: d) (simp_all only: run_listeners_Cons_fired run_listeners.simps(1) snd_conv)

lemma bubble_Nil_fst: "fst (bubble p [] d) = fst (run_listeners (listeners_at p Window ''click'') d)"
  by (auto split: prod.splits)

lemma bubble_Cons_fst:
  "fst (bubble p (e # es) d) =
     (if fst (snd (run_listeners (listeners_at p (Element e) ''click'') d))
      then fst (run_listeners (listeners_at p (Element e) ''click'') d)
      else fst (bubble p es (fst (run_listeners (listeners_at p (Element e) ''click'') d))))"
  by (auto split: prod.splits)

lemma step_Click: "step p (Click path) d = fst (bubble p path d)"
  by (simp add: step_def)

lemma step_Scroll:
  "step p (Scroll x y) d =
     fst (run_listeners (listeners_at p Window ''scroll'')
            (d\<lparr>documentElement_scrollTop := x, body_scrollTop := y\<rparr>))"
  by (auto simp: step_def split: prod.splits)

lemma step_Resize:
  "step p (Resize w) d =
     fst (run_listeners (listeners_at p Window ''resize'') (d\<lparr>innerWidth := w\<rparr>))"
  by (auto simp: step_def split: prod.splits)

declare run_listeners.simps(2) [simp del] bubble.simps [simp del] run_handler.simps [simp del]

lemma run_listeners_invariant:
  assumes "\<And>h d. h \<in> set hs \<Longrightarrow> I d \<Longrightarrow> I (fst (run_handler h d))" and "I d"
  shows "I (fst (run_listeners hs d))"
  using assms
proof (induction hs arbitrary: d)
  case Nil
  then show ?case by simp
next
  case (Cons h hs)
  have "I (fst (run_handler h d))" using Cons.prems by simp
  then have "I (fst (run_listeners hs (fst (run_handler h d))))"
    using Cons.IH Cons.prems(1) by simp
  then show ?case by (simp only: run_listeners_Cons_fst)
qed

lemma bubble_invariant:
  assumes "\<And>t k h d. (t, ''click'', k, h) \<in> set p \<Longrightarrow> I d \<Longrightarrow> I (fst (run_handler h d))"
    and "I d"
  shows "I (fst (bubble p path d))"
  using assms(2)
proof (induction path arbitrary: d)
  case Nil
  have "I (fst (run_listeners (listeners_at p Window ''click'') d))"
    by (rule run_listeners_invariant) (use Nil assms(1) in \<open>auto simp: listeners_at_mem\<close>)
  then show ?case by (simp only: bubble_Nil_fst)
next
  case (Cons e es)
  have 1: "I (fst (run_listeners (listeners_at p (Element e) ''click'') d))"
    by (rule run_listeners_invariant) (use Cons.prems assms(1) in \<open>auto simp: listeners_at_mem\<close>)
  from 1 Cons.IH [OF 1] show ?case by (simp only: bubble_Cons_fst) simp
qed

lemma step_invariant:
  assumes "\<And>t ty k h d. (t, ty, k, h) \<in> set p \<Longrightarrow> I d \<Longrightarrow> I (fst (run_handler h d))"
    and "\<And>x y d. I d \<Longrightarrow> I (d\<lparr>documentElement_scrollTop := x, body_scrollTop := y\<rparr>)"
    and "\<And>w d. I d \<Longrightarrow> I (d\<lparr>innerWidth := w\<rparr>)"
    and "I d"
  shows "I (step p ev d)"
proof (cases ev)
  case (Click path)
  have "I (fst (bubble p path d))"
    by (rule bubble_invariant) (use assms in auto)
  with Click show ?thesis by (simp add: step_Click)
next
  case (Scroll x y)
  have "I (fst (run_listeners (listeners_at p Window ''scroll'')
                 (d\<lparr>documentElement_scrollTop := x, body_scrollTop := y\<rparr>)))"
    by (rule run_listeners_invariant) (use assms in \<open>auto simp: listeners_at_mem\<close>)
  with Scroll show ?thesis by (simp add: step_Scroll)
next
  case (Resize w)
  have "I (fst (run_listeners (listeners_at p Window ''resize'') (d\<lparr>innerWidth := w\<rparr>)))"
    by (rule run_listeners_invariant) (use assms in \<open>auto simp: listeners_at_mem\<close>)
  with Resize show ?thesis by (simp add: step_Resize)
qed

lemma run_invariant:
  assumes "\<And>ev d. I d \<Longrightarrow> I (step p ev d)" and "I d"
  shows "I (run p evs d)"
  using assms(2) by (induction evs arbitrary: d) (simp_all add: assms(1))

lemma bubble_skip:
  assumes "\<forall>e \<in> set pre. listeners_at p (Element e) ''click'' = []"
  shows "bubble p (pre @ rest) d = bubble p rest d"
  using assms by (induction pre) (simp_all add: bubble.simps split: prod.splits)

lemma loaded_handlers:
  assumes "(t, ty, k, h) \<in> set (fst (main_js doc []))"
  shows "(\<exists>b. querySelector doc ''#headerMenu'' = Some b \<and> ty = ''click'' \<and>
              (h = MenuBtnOnclick b (querySelector doc ''#headerNav'') \<or>
               h = BodyClick b (querySelector doc ''#headerNav''))) \<or>
         (t = Window \<and> ty = ''scroll'' \<and> h = WindowScroll (querySelector doc ''.back-to-top''))"
proof (cases doc rule: main_js_cases)
  case wide
  from main_js_wide [OF wide] assms show ?thesis by auto
next
  case (narrow b bd)
  from main_js_narrow [OF narrow] assms narrow show ?thesis by auto
next
  case no_menu
  from main_js_no_menu [OF no_menu] assms show ?thesis by simp
next
  case (no_body b)
  from main_js_no_body [OF no_body] assms no_body show ?thesis by auto
qed

subsection \<open>Class lists and the effect of each listener\<close>

lemma classList_add_class [simp]:
  "classList (add_class e c d) e' = (if e' = e then classList_add (classList d e) c else classList d e')"
  by (simp add: add_class_def)

lemma classList_remove_class [simp]:
  "classList (remove_class e c d) e' =
     (if e' = e then classList_remove (classList d e) c else classList d e')"
  by (simp add: remove_class_def)

lemma set_classList_add [simp]: "set (classList_add cl c) = insert c (set cl)"
  by (auto simp: classList_add_def)

lemma set_classList_remove [simp]: "set (classList_remove cl c) = set cl - {c}"
  by (auto simp: classList_remove_def)

lemma classList_remove_idem [simp]:
  "classList_remove (classList_remove cl c) c = classList_remove cl c"
  by (simp add: classList_remove_def)

lemma classList_add_idem [simp]: "classList_add (classList_add cl c) c = classList_add cl c"
  by (simp add: classList_add_def)

lemma classList_remove_commute:
  "classList_remove (classList_remove cl c) c' = classList_remove (classList_remove cl c') c"
  by (auto simp: classList_remove_def intro: filter_cong)

lemma menu_stops [simp]: "fst (snd (run_handler (MenuBtnOnclick b nav) d))"
  by (simp add: run_handler.simps split: option.splits)

lemma body_does_not_stop [simp]: "\<not> fst (snd (run_handler (BodyClick b nav) d))"
  by (simp add: run_handler.simps split: option.splits)

lemma scroll_does_not_stop [simp]: "\<not> fst (snd (run_handler (WindowScroll t) d))"
  by (simp add: run_handler.simps Let_def split: option.splits)

lemma menu_handler_Some:
  "fst (run_handler (MenuBtnOnclick b (Some n)) d) =
     (if has_class b ''active'' d
      then remove_class n ''nav-show'' (remove_class b ''active'' d)
      else add_class b ''active'' (add_class n ''nav-show'' d))"
  by (simp add: run_handler.simps has_class_def)

lemma menu_handler_None:
  "fst (run_handler (MenuBtnOnclick b None) d) =
     (if has_class b ''active'' d then remove_class b ''active'' d else d)"
  by (simp add: run_handler.simps has_class_def)

lemma body_handler_Some:
  "fst (run_handler (BodyClick b (Some n)) d) =
     remove_class b ''active'' (remove_class n ''nav-show'' d)"
  by (simp add: run_handler.simps)

lemma body_handler_None: "fst (run_handler (BodyClick b None) d) = d"
  by (simp add: run_handler.simps)

lemma scroll_handler_Some:
  "fst (run_handler (WindowScroll (Some t)) d) =
     (if documentElement_present d \<and> body_present d
      then if 200 < max (documentElement_scrollTop d) (body_scrollTop d)
           then add_class t ''back-to-top-show'' d
           else remove_class t ''back-to-top-show'' d
      else d)"
  by (simp add: run_handler.simps Let_def)

lemma scroll_handler_absent:
  "\<not> (documentElement_present d \<and> body_present d) \<Longrightarrow>
   run_handler (WindowScroll t) d = (d, False, Some TypeError)"
  by (auto simp: run_handler.simps)

lemma scroll_handler_None: "fst (run_handler (WindowScroll None) d) = d"
  by (simp add: run_handler.simps Let_def)

lemmas handler_effects = menu_handler_Some menu_handler_None body_handler_Some
  body_handler_None scroll_handler_Some scroll_handler_None

lemma body_handler_idem:
  "fst (run_handler (BodyClick b nav) (fst (run_handler (BodyClick b nav) d))) =
   fst (run_handler (BodyClick b nav) d)"
proof (cases nav)
  case None
  then show ?thesis by (simp add: body_handler_None)
next
  case (Some n)
  show ?thesis
    unfolding Some body_handler_Some
    by (cases "b = n") (simp_all add: remove_class_def classList_remove_commute)
qed

lemma scroll_handler_idem:
  "fst (run_handler (WindowScroll t) (fst (run_handler (WindowScroll t) d))) =
   fst (run_handler (WindowScroll t) d)"
  by (cases t) (simp_all add: handler_effects add_class_def remove_class_def)

text \<open>The listeners of a page loaded with a narrow viewport.\<close>

lemma narrow_click_listeners:
  "listeners_at [(Element b, ''click'', OnAttribute, MenuBtnOnclick b nav),
                (Element bd, ''click'', Listener, BodyClick b nav),
                (Window, ''scroll'', Listener, WindowScroll t)] (Element e) ''click'' =
           (if e = b then [MenuBtnOnclick b nav] else []) @
           (if e = bd then [BodyClick b nav] else [])"
  "listeners_at [(Element b, ''click'', OnAttribute, MenuBtnOnclick b nav),
                (Element bd, ''click'', Listener, BodyClick b nav),
                (Window, ''scroll'', Listener, WindowScroll t)] Window ''click'' = []"
  by (simp_all add: listeners_at_def)

lemma bubble_on_button:
  assumes "b \<noteq> bd" "b \<notin> set pre" "bd \<notin> set pre"
  shows "bubble [(Element b, ''click'', OnAttribute, MenuBtnOnclick b nav),
                (Element bd, ''click'', Listener, BodyClick b nav),
                (Window, ''scroll'', Listener, WindowScroll t)] (pre @ b # anc) d =
           (fst (run_handler (MenuBtnOnclick b nav) d), [MenuBtnOnclick b nav])"
    (is "bubble ?p _ _ = _")
proof -
  have "\<forall>e \<in> set pre. listeners_at ?p (Element e) ''click'' = []"
    using assms by (auto simp: narrow_click_listeners)
  then have "bubble ?p (pre @ b # anc) d = bubble ?p (b # anc) d"
    by (rule bubble_skip)
  also have "\<dots> = (fst (run_handler (MenuBtnOnclick b nav) d), [MenuBtnOnclick b nav])"
    using \<open>b \<noteq> bd\<close> menu_stops [of b nav d]
    by (cases "run_handler (MenuBtnOnclick b nav) d")
       (simp add: narrow_click_listeners bubble.simps run_listeners.simps)
  finally show ?thesis .
qed

lemma bubble_off_button:
  assumes "b \<notin> set path"
  shows "fst (bubble [(Element b, ''click'', OnAttribute, MenuBtnOnclick b nav),
                (Element bd, ''click'', Listener, BodyClick b nav),
                (Window, ''scroll'', Listener, WindowScroll t)] path d) =
           (if bd \<in> set path then fst (run_handler (BodyClick b nav) d) else d)"
    (is "fst (bubble ?p _ _) = _")
  using assms
proof (induction path arbitrary: d)
  case Nil
  show ?case by (simp add: bubble_Nil_fst narrow_click_listeners)
next
  case (Cons e es)
  then have IH: "\<And>d. fst (bubble ?p es d) =
           (if bd \<in> set es then fst (run_handler (BodyClick b nav) d) else d)"
    and "e \<noteq> b" by auto
  show ?case
  proof (cases "e = bd")
    case True
    then have "fst (bubble ?p (e # es) d) = fst (bubble ?p es (fst (run_handler (BodyClick b nav) d)))"
      using \<open>e \<noteq> b\<close>
      by (simp add: bubble_Cons_fst narrow_click_listeners
            run_listeners_Cons_fst run_listeners_Cons_stopped)
    then show ?thesis using True by (simp add: IH body_handler_idem)
  next
    case False
    then have "fst (bubble ?p (e # es) d) = fst (bubble ?p es d)"
      using \<open>e \<noteq> b\<close>
      by (simp add: bubble_Cons_fst narrow_click_listeners)
    then show ?thesis using False by (simp add: IH)
  qed
qed

lemma step_on_button:
  assumes "innerWidth doc \<le> 770"
    and "querySelector doc ''#headerMenu'' = Some b"
    and "querySelector doc ''body'' = Some bd"
    and "b \<noteq> bd" and "b \<notin> set pre" and "bd \<notin> set pre"
  shows "dispatch (fst (main_js doc [])) (Click (pre @ b # anc)) d =
           (fst (run_handler (MenuBtnOnclick b (querySelector doc ''#headerNav'')) d),
            [MenuBtnOnclick b (querySelector doc ''#headerNav'')])"
  using bubble_on_button [OF assms(4-6)]
  by (simp add: main_js_narrow [OF assms(1-3)])

lemma click_handler_frame:
  assumes "h = MenuBtnOnclick b nav \<or> h = BodyClick b nav"
    and "\<not> (e = b \<and> c = ''active'')" and "\<not> (Some e = nav \<and> c = ''nav-show'')"
  shows "has_class e c (fst (run_handler h d)) = has_class e c d"
  using assms by (cases nav) (auto simp: handler_effects split: if_splits)

lemma scroll_handler_frame:
  assumes "\<not> (Some e = t \<and> c = ''back-to-top-show'')"
  shows "has_class e c (fst (run_handler (WindowScroll t) d)) = has_class e c d"
  using assms by (cases t) (auto simp: handler_effects split: if_splits)

lemma click_handler_frame_elem:
  assumes "h = MenuBtnOnclick b nav \<or> h = BodyClick b nav"
    and "e \<noteq> b" and "Some e \<noteq> nav"
  shows "classList (fst (run_handler h d)) e = classList d e"
  using assms by (cases nav) (auto simp: handler_effects)

lemma scroll_handler_frame_elem:
  assumes "Some e \<noteq> t"
  shows "classList (fst (run_handler (WindowScroll t) d)) e = classList d e"
  using assms by (cases t) (auto simp: handler_effects)

lemma has_class_scroll_update [simp]:
  "has_class e c (d\<lparr>documentElement_scrollTop := x, body_scrollTop := y\<rparr>) = has_class e c d"
  "has_class e c (d\<lparr>innerWidth := w\<rparr>) = has_class e c d"
  by (simp_all add: has_class_def)

lemma scroll_after_scroll:
  "fst (run_handler (WindowScroll t)
         ((fst (run_handler (WindowScroll t)
                 (d\<lparr>documentElement_scrollTop := x, body_scrollTop := y\<rparr>)))
            \<lparr>documentElement_scrollTop := x, body_scrollTop := y\<rparr>)) =
   fst (run_handler (WindowScroll t) (d\<lparr>documentElement_scrollTop := x, body_scrollTop := y\<rparr>))"
  by (cases t) (simp_all add: handler_effects add_class_def remove_class_def)

lemma menu_handler_toggles_sample:
  "fst (run_handler (MenuBtnOnclick 1 (Some 2))
         (fst (run_handler (MenuBtnOnclick 1 (Some 2)) (sample_dom 500)))) \<noteq>
   fst (run_handler (MenuBtnOnclick 1 (Some 2)) (sample_dom 500))"
proof -
  have c: "\<not> has_class 1 ''active'' (sample_dom 500)"
    by (simp add: sample_dom_def has_class_def classList_contains_def)
  have 1: "has_class 1 ''active'' (fst (run_handler (MenuBtnOnclick 1 (Some 2)) (sample_dom 500)))"
    using c by (simp add: menu_handler_Some)
  have 2: "\<not> has_class 1 ''active'' (fst (run_handler (MenuBtnOnclick 1 (Some 2))
         (fst (run_handler (MenuBtnOnclick 1 (Some 2)) (sample_dom 500)))))"
    using c by (simp add: menu_handler_Some)
  from 1 2 show ?thesis by metis
qed

lemma handler_keeps_present:
  "documentElement_present (fst (run_handler h d)) = documentElement_present d \<and>
   body_present (fst (run_handler h d)) = body_present d"
proof (cases h)
  case (MenuBtnOnclick b nav)
  then show ?thesis
    by (cases nav) (simp_all add: run_handler.simps add_class_def remove_class_def)
next
  case (BodyClick b nav)
  then show ?thesis
    by (cases nav) (simp_all add: run_handler.simps add_class_def remove_class_def)
next
  case (WindowScroll t)
  then show ?thesis
    by (cases t) (simp_all add: run_handler.simps add_class_def remove_class_def Let_def)
qed

lemma run_keeps_present:
  "documentElement_present (run p evs d) = documentElement_present d \<and>
   body_present (run p evs d) = body_present d"
proof -
  let ?I = "\<lambda>d'. documentElement_present d' = documentElement_present d \<and>
                body_present d' = body_present d"
  have st: "?I (step p ev d')" if "?I d'" for ev d'
    by (rule step_invariant [where I = ?I]) (use that in \<open>auto simp: handler_keeps_present\<close>)
  show ?thesis
  proof (rule run_invariant [where I = ?I])
    show "?I (step p ev d')" if "?I d'" for ev d'
      using that by (rule st)
    show "?I d" by simp
  qed
qed

section \<open>The claims\<close>

subsection \<open>Back-to-top visibility\<close>

text \<open>
  Claim C1. The claim speaks of a page on which the scroll listener is registered,
  \<open>.back-to-top\<close> selects an element, and both sources of the scroll offset, the document
  element and the body, exist. On such a page, after a scroll event that leaves the offsets
  \<open>x\<close> (document element) and \<open>y\<close> (body), the element has the class
  \<open>back-to-top-show\<close> if and only if \<open>max x y > 200\<close>, whatever the classes were before
  and whatever events came earlier. (Where one of the two sources is \<open>null\<close> the listener
  throws before it touches a class: \<open>scroll_handler_absent\<close>.)
\<close>

theorem scroll_sets_back_to_top_show:
  assumes "snd (main_js doc []) = None"
    and "querySelector doc ''.back-to-top'' = Some t"
    and "documentElement_present d" and "body_present d"
  shows "(has_class t ''back-to-top-show'' (step (fst (main_js doc [])) (Scroll x y) d)
            \<longleftrightarrow> 200 < max x y) \<and>
         (has_class t ''back-to-top-show'' (run (fst (main_js doc [])) (evs @ [Scroll x y]) d)
            \<longleftrightarrow> 200 < max x y)"
proof -
  from scroll_listeners_loaded [OF assms(1)] assms(2)
  have l: "listeners_at (fst (main_js doc [])) Window ''scroll'' = [WindowScroll (Some t)]"
    by simp
  have s: "has_class t ''back-to-top-show'' (step (fst (main_js doc [])) (Scroll x y) d')
          \<longleftrightarrow> 200 < max x y"
    if "documentElement_present d'" and "body_present d'" for d'
    by (simp add: scroll_step [OF l that])
  have "documentElement_present (run (fst (main_js doc [])) evs d)"
    and "body_present (run (fst (main_js doc [])) evs d)"
    using run_keeps_present [of "fst (main_js doc [])" evs d] assms(3,4) by simp_all
  then have "has_class t ''back-to-top-show''
               (step (fst (main_js doc [])) (Scroll x y) (run (fst (main_js doc [])) evs d))
             \<longleftrightarrow> 200 < max x y"
    by (rule s)
  with s [OF assms(3,4)] show ?thesis by (simp add: run_append)
qed

theorem scroll_sets_back_to_top_show_witness:
  "snd (main_js (sample_dom 500) []) = None \<and>
   querySelector (sample_dom 500) ''.back-to-top'' = Some 3 \<and>
   documentElement_present (sample_dom 500) \<and> body_present (sample_dom 500) \<and>
   \<not> has_class 3 ''back-to-top-show''
       (step (fst (main_js (sample_dom 500) [])) (Scroll 199 0) (sample_dom 500)) \<and>
   \<not> has_class 3 ''back-to-top-show''
       (step (fst (main_js (sample_dom 500) [])) (Scroll 200 0) (sample_dom 500)) \<and>
   has_class 3 ''back-to-top-show''
       (step (fst (main_js (sample_dom 500) [])) (Scroll 201 0) (sample_dom 500)) \<and>
   has_class 3 ''back-to-top-show''
       (step (fst (main_js (sample_dom 500) [])) (Scroll 0 201) (sample_dom 500)) \<and>
   \<not> has_class 3 ''back-to-top-show''
       (run (fst (main_js (sample_dom 500) [])) ([Scroll 300 0] @ [Scroll 100 0])
          (sample_dom 500))"
proof -
  have m: "snd (main_js (sample_dom 500) []) = None"
    by (simp add: script_defs sample_dom_def)
  have q: "querySelector (sample_dom 500) ''.back-to-top'' = Some 3"
    by (simp add: sample_dom_def)
  have e: "documentElement_present (sample_dom 500)" and b: "body_present (sample_dom 500)"
    by (simp_all add: sample_dom_def)
  note T = scroll_sets_back_to_top_show [OF m q e b]
  from T [of 199 0 "[]"] T [of 200 0 "[]"] T [of 201 0 "[]"] T [of 0 201 "[]"]
    T [of 100 0 "[Scroll 300 0]"] m q e b
  show ?thesis by simp
qed

subsection \<open>The menu button\<close>

text \<open>
  Claim C2, as the code has it. With a viewport of at most 770, all three elements present
  and the button not the body itself, a click whose path reaches the button before the
  body removes \<open>active\<close> and \<open>nav-show\<close> when the button has \<open>active\<close>, and adds both
  otherwise. Two such clicks in a row give back the class sets of the button and of the
  panel provided the two flags agreed before the first click.
\<close>

theorem menu_click_toggles:
  assumes "innerWidth doc \<le> 770"
    and "querySelector doc ''#headerMenu'' = Some b"
    and "querySelector doc ''#headerNav'' = Some n"
    and "querySelector doc ''body'' = Some bd"
    and "b \<noteq> bd" and "b \<notin> set pre" and "bd \<notin> set pre"
  shows "let p = fst (main_js doc []);
             d1 = step p (Click (pre @ b # anc)) d;
             d2 = step p (Click (pre @ b # anc)) d1
         in (has_class b ''active'' d \<longrightarrow>
               \<not> has_class b ''active'' d1 \<and> \<not> has_class n ''nav-show'' d1) \<and>
            (\<not> has_class b ''active'' d \<longrightarrow>
               has_class b ''active'' d1 \<and> has_class n ''nav-show'' d1) \<and>
            ((has_class b ''active'' d \<longleftrightarrow> has_class n ''nav-show'' d) \<longrightarrow>
               set (classList d2 b) = set (classList d b) \<and>
               set (classList d2 n) = set (classList d n))"
proof -
  have s: "step (fst (main_js doc [])) (Click (pre @ b # anc)) d' =
        (if has_class b ''active'' d'
         then remove_class n ''nav-show'' (remove_class b ''active'' d')
         else add_class b ''active'' (add_class n ''nav-show'' d'))" for d'
    using step_on_button [OF assms(1,2,4-7), of anc d']
    by (simp add: step_def assms(3) menu_handler_Some)
  show ?thesis
    unfolding Let_def s
    by (auto simp: has_class_def classList_contains_def)
qed

theorem menu_click_toggles_witness:
  "innerWidth (sample_dom 500) \<le> 770 \<and>
   querySelector (sample_dom 500) ''#headerMenu'' = Some 1 \<and>
   querySelector (sample_dom 500) ''#headerNav'' = Some 2 \<and>
   querySelector (sample_dom 500) ''body'' = Some 0 \<and>
   \<not> has_class 1 ''active'' (sample_dom 500) \<and>
   \<not> has_class 2 ''nav-show'' (sample_dom 500) \<and>
   has_class 1 ''active''
     (step (fst (main_js (sample_dom 500) [])) (Click [1, 0]) (sample_dom 500)) \<and>
   has_class 2 ''nav-show''
     (step (fst (main_js (sample_dom 500) [])) (Click [1, 0]) (sample_dom 500)) \<and>
   set (classList (step (fst (main_js (sample_dom 500) [])) (Click [1, 0])
          (step (fst (main_js (sample_dom 500) [])) (Click [1, 0]) (sample_dom 500))) 1) = {} \<and>
   set (classList (step (fst (main_js (sample_dom 500) [])) (Click [1, 0])
          (step (fst (main_js (sample_dom 500) [])) (Click [1, 0]) (sample_dom 500))) 2) = {}"
proof -
  have h: "innerWidth (sample_dom 500) \<le> 770"
    "querySelector (sample_dom 500) ''#headerMenu'' = Some 1"
    "querySelector (sample_dom 500) ''#headerNav'' = Some 2"
    "querySelector (sample_dom 500) ''body'' = Some 0"
    "\<not> has_class 1 ''active'' (sample_dom 500)"
    "\<not> has_class 2 ''nav-show'' (sample_dom 500)"
    "classList (sample_dom 500) 1 = []" "classList (sample_dom 500) 2 = []"
    by (simp_all add: sample_dom_def has_class_def classList_contains_def)
  have "(1::nat) \<noteq> 0" "(1::nat) \<notin> set []" "(0::nat) \<notin> set []" by simp_all
  from menu_click_toggles [OF h(1-4) this, of "[0]" "sample_dom 500"] h show ?thesis
    by (simp add: Let_def)
qed

text \<open>
  Claim C2 as stated promises the original class state after two clicks from every state.
  The handler looks at the button alone: when the button has \<open>active\<close> and the panel has no
  \<open>nav-show\<close>, the first click removes \<open>active\<close>, the second adds both classes, and the
  panel ends with a class it did not have.
\<close>

theorem two_clicks_change_unsynchronised_panel:
  "innerWidth (sample_dom 500) \<le> 770 \<and>
   querySelector (sample_dom 500) ''#headerMenu'' = Some 1 \<and>
   querySelector (sample_dom 500) ''#headerNav'' = Some 2 \<and>
   \<not> has_class 2 ''nav-show'' (add_class 1 ''active'' (sample_dom 500)) \<and>
   has_class 2 ''nav-show''
     (step (fst (main_js (sample_dom 500) [])) (Click [1, 0])
        (step (fst (main_js (sample_dom 500) [])) (Click [1, 0])
           (add_class 1 ''active'' (sample_dom 500))))"
  by (simp add: script_defs sample_dom_def step_def bubble.simps run_listeners.simps
      run_handler.simps listeners_at_def add_class_def remove_class_def has_class_def
      classList_contains_def classList_add_def classList_remove_def)

subsection \<open>The viewport check\<close>

text \<open>
  Claim C3. The width is read when the script loads and nowhere else. Above 770 the script
  registers the scroll listener only: a click runs no listener and leaves the document as
  it is, and over any sequence of events, resizes below 770 included, no class other than
  \<open>back-to-top-show\<close> changes on any element. At 770 or below, with \<open>#headerMenu\<close> and the
  body present, the button handler and the body handler are registered.
\<close>

theorem width_checked_once_at_load:
  "(770 < innerWidth doc \<longrightarrow>
      main_js doc [] =
        ([(Window, ''scroll'', Listener, WindowScroll (querySelector doc ''.back-to-top''))], None) \<and>
      dispatch (fst (main_js doc [])) (Click path) d = (d, []) \<and>
      (c \<noteq> ''back-to-top-show'' \<longrightarrow>
         has_class e c (run (fst (main_js doc [])) evs d) = has_class e c d)) \<and>
   (innerWidth doc \<le> 770 \<and> querySelector doc ''#headerMenu'' = Some b \<and>
    querySelector doc ''body'' = Some bd \<longrightarrow>
      main_js doc [] =
        ([(Element b, ''click'', OnAttribute, MenuBtnOnclick b (querySelector doc ''#headerNav'')),
          (Element bd, ''click'', Listener, BodyClick b (querySelector doc ''#headerNav'')),
          (Window, ''scroll'', Listener, WindowScroll (querySelector doc ''.back-to-top''))], None))"
proof (intro conjI impI)
  assume w: "770 < innerWidth doc"
  let ?p = "[(Window, ''scroll'', Listener, WindowScroll (querySelector doc ''.back-to-top''))]"
  show m: "main_js doc [] = (?p, None)" by (rule main_js_wide [OF w])
  have "bubble ?p path d' = (d', [])" for d'
    by (induction path) (simp_all add: bubble.simps listeners_at_def)
  then show "dispatch (fst (main_js doc [])) (Click path) d = (d, [])"
    by (simp add: m)
  assume c: "c \<noteq> ''back-to-top-show''"
  have st: "has_class e c (step ?p ev d') = has_class e c d"
    if "has_class e c d' = has_class e c d" for ev d'
    by (rule step_invariant [where I = "\<lambda>d'. has_class e c d' = has_class e c d"])
       (use that c in \<open>auto simp: scroll_handler_frame\<close>)
  have "has_class e c (run ?p evs d) = has_class e c d"
  proof (rule run_invariant [where I = "\<lambda>d'. has_class e c d' = has_class e c d"])
    show "has_class e c (step ?p ev d') = has_class e c d"
      if "has_class e c d' = has_class e c d" for ev d'
      using that by (rule st)
  qed simp
  then show "has_class e c (run (fst (main_js doc [])) evs d) = has_class e c d"
    by (simp add: m)
next
  assume "innerWidth doc \<le> 770 \<and> querySelector doc ''#headerMenu'' = Some b \<and>
    querySelector doc ''body'' = Some bd"
  then show "main_js doc [] =
        ([(Element b, ''click'', OnAttribute, MenuBtnOnclick b (querySelector doc ''#headerNav'')),
          (Element bd, ''click'', Listener, BodyClick b (querySelector doc ''#headerNav'')),
          (Window, ''scroll'', Listener, WindowScroll (querySelector doc ''.back-to-top''))], None)"
    by (simp add: main_js_narrow)
qed

theorem width_checked_once_at_load_witness:
  "770 < innerWidth (sample_dom 1024) \<and>
   main_js (sample_dom 1024) [] = ([(Window, ''scroll'', Listener, WindowScroll (Some 3))], None) \<and>
   dispatch (fst (main_js (sample_dom 1024) [])) (Click [1, 0]) (sample_dom 1024) =
     (sample_dom 1024, []) \<and>
   \<not> has_class 1 ''active''
       (run (fst (main_js (sample_dom 1024) []))
          [Resize 500, Click [1, 0], Scroll 300 0, Click [0]] (sample_dom 1024)) \<and>
   innerWidth (sample_dom 500) \<le> 770 \<and>
   main_js (sample_dom 500) [] =
     ([(Element 1, ''click'', OnAttribute, MenuBtnOnclick 1 (Some 2)),
       (Element 0, ''click'', Listener, BodyClick 1 (Some 2)),
       (Window, ''scroll'', Listener, WindowScroll (Some 3))], None)"
proof -
  have h: "770 < innerWidth (sample_dom 1024)"
    "querySelector (sample_dom 1024) ''.back-to-top'' = Some 3"
    "\<not> has_class 1 ''active'' (sample_dom 1024)"
    "''active'' \<noteq> ''back-to-top-show''"
    "innerWidth (sample_dom 500) \<le> 770"
    "querySelector (sample_dom 500) ''#headerMenu'' = Some 1"
    "querySelector (sample_dom 500) ''#headerNav'' = Some 2"
    "querySelector (sample_dom 500) ''body'' = Some 0"
    "querySelector (sample_dom 500) ''.back-to-top'' = Some 3"
    by (simp_all add: sample_dom_def has_class_def classList_contains_def)
  have m: "fst (main_js (sample_dom 1024) []) = [(Window, ''scroll'', Listener, WindowScroll (Some 3))]"
    by (simp add: script_defs sample_dom_def)
  from width_checked_once_at_load [where doc = "sample_dom 1024" and path = "[1, 0]"
      and d = "sample_dom 1024" and c = "''active''" and e = 1
      and evs = "[Resize 500, Click [1, 0], Scroll 300 0, Click [0]]"]
    width_checked_once_at_load [where doc = "sample_dom 500" and b = 1 and bd = 0] h
  show ?thesis by (simp add: m)
qed

subsection \<open>The body click\<close>

text \<open>
  Claim C4. With a viewport of at most 770 and the three elements present, a click whose
  path contains the body and not the button removes \<open>nav-show\<close> from the panel and
  \<open>active\<close> from the button, whatever the classes were.
\<close>

theorem body_click_closes_menu:
  assumes "innerWidth doc \<le> 770"
    and "querySelector doc ''#headerMenu'' = Some b"
    and "querySelector doc ''#headerNav'' = Some n"
    and "querySelector doc ''body'' = Some bd"
    and "bd \<in> set path" and "b \<notin> set path"
  shows "step (fst (main_js doc [])) (Click path) d =
           remove_class b ''active'' (remove_class n ''nav-show'' d) \<and>
         \<not> has_class n ''nav-show'' (step (fst (main_js doc [])) (Click path) d) \<and>
         \<not> has_class b ''active'' (step (fst (main_js doc [])) (Click path) d)"
proof -
  have "step (fst (main_js doc [])) (Click path) d =
           remove_class b ''active'' (remove_class n ''nav-show'' d)"
    using bubble_off_button [OF assms(6), of "Some n" bd _ d] assms(5)
    by (simp add: main_js_narrow [OF assms(1,2,4)] assms(3) step_Click body_handler_Some)
  then show ?thesis by simp
qed

theorem body_click_closes_menu_witness:
  "innerWidth (sample_dom 500) \<le> 770 \<and>
   querySelector (sample_dom 500) ''#headerMenu'' = Some 1 \<and>
   querySelector (sample_dom 500) ''#headerNav'' = Some 2 \<and>
   querySelector (sample_dom 500) ''body'' = Some 0 \<and>
   0 \<in> set [5, 0 :: nat] \<and> 1 \<notin> set [5, 0 :: nat] \<and>
   has_class 1 ''active'' (add_class 1 ''active'' (add_class 2 ''nav-show'' (sample_dom 500))) \<and>
   has_class 2 ''nav-show'' (add_class 1 ''active'' (add_class 2 ''nav-show'' (sample_dom 500))) \<and>
   \<not> has_class 2 ''nav-show''
       (step (fst (main_js (sample_dom 500) [])) (Click [5, 0])
          (add_class 1 ''active'' (add_class 2 ''nav-show'' (sample_dom 500)))) \<and>
   \<not> has_class 1 ''active''
       (step (fst (main_js (sample_dom 500) [])) (Click [5, 0])
          (add_class 1 ''active'' (add_class 2 ''nav-show'' (sample_dom 500))))"
proof -
  have h: "innerWidth (sample_dom 500) \<le> 770"
    "querySelector (sample_dom 500) ''#headerMenu'' = Some 1"
    "querySelector (sample_dom 500) ''#headerNav'' = Some 2"
    "querySelector (sample_dom 500) ''body'' = Some 0"
    "0 \<in> set [5, 0 :: nat]" "1 \<notin> set [5, 0 :: nat]"
    by (simp_all add: sample_dom_def)
  from body_click_closes_menu [OF h,
      of "add_class 1 ''active'' (add_class 2 ''nav-show'' (sample_dom 500))"] h
  show ?thesis by simp
qed

subsection \<open>Propagation\<close>

text \<open>
  Claim C5. With a viewport of at most 770, the button and the body present and distinct,
  a click whose path reaches the button before the body runs the button handler and no
  other listener: the handler stops propagation in every case, so the body handler, which
  sits later on the path, does not run for that event. A click that opens the menu
  therefore leaves it open.
\<close>

theorem button_click_stops_propagation:
  assumes "innerWidth doc \<le> 770"
    and "querySelector doc ''#headerMenu'' = Some b"
    and "querySelector doc ''body'' = Some bd"
    and "b \<noteq> bd" and "b \<notin> set pre" and "bd \<notin> set pre"
  shows "snd (dispatch (fst (main_js doc [])) (Click (pre @ b # anc)) d) =
           [MenuBtnOnclick b (querySelector doc ''#headerNav'')] \<and>
         fst (snd (run_handler (MenuBtnOnclick b (querySelector doc ''#headerNav'')) d)) \<and>
         (querySelector doc ''#headerNav'' = Some n \<and> \<not> has_class b ''active'' d \<longrightarrow>
            has_class b ''active'' (step (fst (main_js doc [])) (Click (pre @ b # anc)) d) \<and>
            has_class n ''nav-show'' (step (fst (main_js doc [])) (Click (pre @ b # anc)) d))"
  using step_on_button [OF assms, of anc d]
  by (auto simp: step_def menu_handler_Some)

theorem button_click_stops_propagation_witness:
  "innerWidth (sample_dom 500) \<le> 770 \<and>
   querySelector (sample_dom 500) ''#headerMenu'' = Some 1 \<and>
   querySelector (sample_dom 500) ''#headerNav'' = Some 2 \<and>
   querySelector (sample_dom 500) ''body'' = Some 0 \<and>
   \<not> has_class 1 ''active'' (sample_dom 500) \<and>
   snd (dispatch (fst (main_js (sample_dom 500) [])) (Click [7, 1, 0]) (sample_dom 500)) =
     [MenuBtnOnclick 1 (Some 2)] \<and>
   has_class 1 ''active''
     (step (fst (main_js (sample_dom 500) [])) (Click [7, 1, 0]) (sample_dom 500)) \<and>
   has_class 2 ''nav-show''
     (step (fst (main_js (sample_dom 500) [])) (Click [7, 1, 0]) (sample_dom 500))"
proof -
  have h: "innerWidth (sample_dom 500) \<le> 770"
    "querySelector (sample_dom 500) ''#headerMenu'' = Some 1"
    "querySelector (sample_dom 500) ''body'' = Some 0"
    "(1::nat) \<noteq> 0" "(1::nat) \<notin> set [7]" "(0::nat) \<notin> set [7]"
    by (simp_all add: sample_dom_def)
  have g: "querySelector (sample_dom 500) ''#headerNav'' = Some 2"
    "\<not> has_class 1 ''active'' (sample_dom 500)"
    by (simp_all add: sample_dom_def has_class_def classList_contains_def)
  from button_click_stops_propagation [OF h, of "[0]" "sample_dom 500" 2] h g
  show ?thesis by simp
qed

subsection \<open>Absent elements\<close>

text \<open>
  Claim C6, as the code has it. The script has no guard for an absent element. It loads
  without an exception exactly when the viewport is wider than 770 or both \<open>#headerMenu\<close>
  and the body are found, and then the scroll listener is registered. Otherwise the menu
  setup throws \<open>TypeError\<close> and the scroll listener is not registered.
\<close>

theorem load_succeeds_iff_menu_elements_present:
  "(snd (main_js doc []) = None \<longleftrightarrow>
      770 < innerWidth doc \<or>
      (querySelector doc ''#headerMenu'' \<noteq> None \<and> querySelector doc ''body'' \<noteq> None)) \<and>
   (snd (main_js doc []) = None \<longrightarrow>
      listeners_at (fst (main_js doc [])) Window ''scroll'' =
        [WindowScroll (querySelector doc ''.back-to-top'')]) \<and>
   (snd (main_js doc []) \<noteq> None \<longrightarrow>
      snd (main_js doc []) = Some TypeError \<and>
      listeners_at (fst (main_js doc [])) Window ''scroll'' = [])"
proof (cases doc rule: main_js_cases)
  case wide
  from main_js_wide [OF wide] wide show ?thesis by (simp add: listeners_at_def)
next
  case (narrow b bd)
  from main_js_narrow [OF narrow] narrow show ?thesis by (simp add: listeners_at_def)
next
  case no_menu
  from main_js_no_menu [OF no_menu] no_menu show ?thesis by (simp add: listeners_at_def)
next
  case (no_body b)
  from main_js_no_body [OF no_body] no_body show ?thesis by (simp add: listeners_at_def)
qed

theorem load_succeeds_iff_menu_elements_present_witness:
  "snd (main_js (sample_dom 500) []) = None \<and>
   listeners_at (fst (main_js (sample_dom 500) [])) Window ''scroll'' =
     [WindowScroll (Some 3)] \<and>
   snd (main_js ((sample_dom 500)\<lparr>querySelector :=
          (querySelector (sample_dom 500))(''body'' := None)\<rparr>) []) = Some TypeError \<and>
   listeners_at (fst (main_js ((sample_dom 500)\<lparr>querySelector :=
          (querySelector (sample_dom 500))(''body'' := None)\<rparr>) [])) Window ''scroll'' = []"
proof -
  have h: "innerWidth (sample_dom 500) \<le> 770"
    "querySelector (sample_dom 500) ''#headerMenu'' = Some 1"
    "querySelector (sample_dom 500) ''body'' = Some 0"
    "querySelector (sample_dom 500) ''.back-to-top'' = Some 3"
    by (simp_all add: sample_dom_def)
  from load_succeeds_iff_menu_elements_present [of "sample_dom 500"]
    load_succeeds_iff_menu_elements_present [of "(sample_dom 500)\<lparr>querySelector :=
          (querySelector (sample_dom 500))(''body'' := None)\<rparr>"] h
  show ?thesis by simp
qed

text \<open>
  Claim C6 as stated has every listener whose elements exist attached, whichever elements
  are absent. With a viewport of 500, \<open>.back-to-top\<close> present and \<open>#headerMenu\<close> absent, the
  assignment to \<open>menuBtn.onclick\<close> throws, the script ends there, and no listener at all is
  registered.
\<close>

theorem absent_menu_button_aborts_load:
  "innerWidth ((sample_dom 500)\<lparr>querySelector :=
       (querySelector (sample_dom 500))(''#headerMenu'' := None)\<rparr>) \<le> 770 \<and>
   querySelector ((sample_dom 500)\<lparr>querySelector :=
       (querySelector (sample_dom 500))(''#headerMenu'' := None)\<rparr>) ''.back-to-top'' = Some 3 \<and>
   main_js ((sample_dom 500)\<lparr>querySelector :=
       (querySelector (sample_dom 500))(''#headerMenu'' := None)\<rparr>) [] = ([], Some TypeError)"
  by (simp add: script_defs sample_dom_def)

subsection \<open>Frames\<close>

text \<open>
  Claim C7. For the page the script loads and any document: a scroll event changes the
  class list of no element but the one \<open>.back-to-top\<close> selected, and on every element
  no class but \<open>back-to-top-show\<close>; a click changes the class list of no element but the
  ones \<open>#headerMenu\<close> and \<open>#headerNav\<close> selected, and nothing but \<open>active\<close> on the first
  and \<open>nav-show\<close> on the second. Since the document is arbitrary, this holds at every
  event of every sequence.
\<close>

theorem listeners_change_only_their_own_classes:
  "(\<not> (querySelector doc ''.back-to-top'' = Some e \<and> c = ''back-to-top-show'') \<longrightarrow>
      has_class e c (step (fst (main_js doc [])) (Scroll x y) d) = has_class e c d) \<and>
   (querySelector doc ''.back-to-top'' \<noteq> Some e \<longrightarrow>
      classList (step (fst (main_js doc [])) (Scroll x y) d) e = classList d e) \<and>
   (\<not> (querySelector doc ''#headerMenu'' = Some e \<and> c = ''active'') \<and>
    \<not> (querySelector doc ''#headerNav'' = Some e \<and> c = ''nav-show'') \<longrightarrow>
      has_class e c (step (fst (main_js doc [])) (Click path) d) = has_class e c d) \<and>
   (querySelector doc ''#headerMenu'' \<noteq> Some e \<and> querySelector doc ''#headerNav'' \<noteq> Some e \<longrightarrow>
      classList (step (fst (main_js doc [])) (Click path) d) e = classList d e)"
proof (intro conjI impI)
  let ?p = "fst (main_js doc [])"
  let ?d1 = "d\<lparr>documentElement_scrollTop := x, body_scrollTop := y\<rparr>"
  have scroll: "h = WindowScroll (querySelector doc ''.back-to-top'')"
    if "h \<in> set (listeners_at ?p Window ''scroll'')" for h
    using that loaded_handlers [of Window "''scroll''" _ h doc] by (auto simp: listeners_at_mem)
  have click: "\<exists>b. querySelector doc ''#headerMenu'' = Some b \<and>
              (h = MenuBtnOnclick b (querySelector doc ''#headerNav'') \<or>
               h = BodyClick b (querySelector doc ''#headerNav''))"
    if "(t, ''click'', k, h) \<in> set ?p" for t k h
    using loaded_handlers [OF that] by auto
  {
    assume a: "\<not> (querySelector doc ''.back-to-top'' = Some e \<and> c = ''back-to-top-show'')"
    have "has_class e c (fst (run_listeners (listeners_at ?p Window ''scroll'') ?d1)) =
          has_class e c d"
      by (rule run_listeners_invariant [where I = "\<lambda>d'. has_class e c d' = has_class e c d"])
         (use a in \<open>auto dest!: scroll simp: scroll_handler_frame\<close>)
    then show "has_class e c (step ?p (Scroll x y) d) = has_class e c d"
      by (simp add: step_Scroll)
  }
  {
    assume a: "querySelector doc ''.back-to-top'' \<noteq> Some e"
    have "classList (fst (run_listeners (listeners_at ?p Window ''scroll'') ?d1)) e =
          classList d e"
      by (rule run_listeners_invariant [where I = "\<lambda>d'. classList d' e = classList d e"])
         (use a in \<open>auto dest!: scroll simp: scroll_handler_frame_elem\<close>)
    then show "classList (step ?p (Scroll x y) d) e = classList d e"
      by (simp add: step_Scroll)
  }
  {
    assume a: "\<not> (querySelector doc ''#headerMenu'' = Some e \<and> c = ''active'') \<and>
      \<not> (querySelector doc ''#headerNav'' = Some e \<and> c = ''nav-show'')"
    have "has_class e c (fst (bubble ?p path d)) = has_class e c d"
    proof (rule bubble_invariant [where I = "\<lambda>d'. has_class e c d' = has_class e c d"])
      fix t k h and d' :: dom
      assume m: "(t, ''click'', k, h) \<in> set ?p" and i: "has_class e c d' = has_class e c d"
      from click [OF m] obtain b where b: "querySelector doc ''#headerMenu'' = Some b"
        "h = MenuBtnOnclick b (querySelector doc ''#headerNav'') \<or>
         h = BodyClick b (querySelector doc ''#headerNav'')" by blast
      have "has_class e c (fst (run_handler h d')) = has_class e c d'"
        by (rule click_handler_frame [OF b(2)]) (use a b(1) in auto)
      with i show "has_class e c (fst (run_handler h d')) = has_class e c d" by simp
    qed simp
    then show "has_class e c (step ?p (Click path) d) = has_class e c d"
      by (simp add: step_Click)
  }
  {
    assume a: "querySelector doc ''#headerMenu'' \<noteq> Some e \<and>
      querySelector doc ''#headerNav'' \<noteq> Some e"
    have "classList (fst (bubble ?p path d)) e = classList d e"
    proof (rule bubble_invariant [where I = "\<lambda>d'. classList d' e = classList d e"])
      fix t k h and d' :: dom
      assume m: "(t, ''click'', k, h) \<in> set ?p" and i: "classList d' e = classList d e"
      from click [OF m] obtain b where b: "querySelector doc ''#headerMenu'' = Some b"
        "h = MenuBtnOnclick b (querySelector doc ''#headerNav'') \<or>
         h = BodyClick b (querySelector doc ''#headerNav'')" by blast
      have "classList (fst (run_handler h d')) e = classList d' e"
        by (rule click_handler_frame_elem [OF b(2)]) (use a b(1) in auto)
      with i show "classList (fst (run_handler h d')) e = classList d e" by simp
    qed simp
    then show "classList (step ?p (Click path) d) e = classList d e"
      by (simp add: step_Click)
  }
qed

theorem listeners_change_only_their_own_classes_witness:
  "has_class 1 ''active''
     (step (fst (main_js (sample_dom 500) [])) (Scroll 300 0)
        (add_class 1 ''active'' (add_class 2 ''nav-show'' (sample_dom 500)))) \<and>
   classList (step (fst (main_js (sample_dom 500) [])) (Scroll 300 0)
        (add_class 1 ''active'' (add_class 2 ''nav-show'' (sample_dom 500)))) 2 = [''nav-show''] \<and>
   has_class 3 ''back-to-top-show''
     (step (fst (main_js (sample_dom 500) [])) (Click [1, 0])
        (add_class 3 ''back-to-top-show'' (sample_dom 500))) \<and>
   classList (step (fst (main_js (sample_dom 500) [])) (Click [1, 0])
        (add_class 3 ''back-to-top-show'' (sample_dom 500))) 3 = [''back-to-top-show'']"
proof -
  have h: "querySelector (sample_dom 500) ''#headerMenu'' = Some 1"
    "querySelector (sample_dom 500) ''#headerNav'' = Some 2"
    "querySelector (sample_dom 500) ''.back-to-top'' = Some 3"
    "classList (sample_dom 500) 1 = []" "classList (sample_dom 500) 2 = []"
    "classList (sample_dom 500) 3 = []"
    by (simp_all add: sample_dom_def)
  from listeners_change_only_their_own_classes [where doc = "sample_dom 500" and e = 1
      and c = "''active''" and x = 300 and y = 0
      and d = "add_class 1 ''active'' (add_class 2 ''nav-show'' (sample_dom 500))"]
    listeners_change_only_their_own_classes [where doc = "sample_dom 500" and e = 2
      and c = "''nav-show''" and x = 300 and y = 0
      and d = "add_class 1 ''active'' (add_class 2 ''nav-show'' (sample_dom 500))"]
    listeners_change_only_their_own_classes [where doc = "sample_dom 500" and e = 3
      and c = "''back-to-top-show''" and path = "[1, 0]"
      and d = "add_class 3 ''back-to-top-show'' (sample_dom 500)"] h
  show ?thesis by (simp add: classList_add_def)
qed

subsection \<open>The unused selection\<close>

text \<open>
  Claim C8. The third function of the script selects the \<open>.grid-item\<close> elements into a
  local variable and does nothing else: the script with it and the script without it
  register the same listeners and end with the same exception or none, so every event
  sequence leaves the same document.
\<close>

theorem hover_block_is_inert:
  "main_js doc p0 = main_js_omitting_hover doc p0 \<and>
   run (fst (main_js doc p0)) evs d = run (fst (main_js_omitting_hover doc p0)) evs d"
proof -
  have "main_js doc p0 = main_js_omitting_hover doc p0"
    by (simp add: main_js_def main_js_omitting_hover_def hover_def backToTop_def Let_def
        split: prod.splits option.splits)
  then show ?thesis by simp
qed

subsection \<open>Synchrony of the two menu flags\<close>

text \<open>
  Claim C9. From a document in which the button lacks \<open>active\<close> and the panel lacks
  \<open>nav-show\<close>, every sequence of events (clicks on any path, scrolls, resizes) leads to a
  document in which the button has \<open>active\<close> if and only if the panel has \<open>nav-show\<close>.
\<close>

theorem menu_flags_stay_in_sync:
  assumes "querySelector doc ''#headerMenu'' = Some b"
    and "querySelector doc ''#headerNav'' = Some n"
    and "\<not> has_class b ''active'' d" and "\<not> has_class n ''nav-show'' d"
  shows "has_class b ''active'' (run (fst (main_js doc [])) evs d) \<longleftrightarrow>
         has_class n ''nav-show'' (run (fst (main_js doc [])) evs d)"
proof -
  let ?I = "\<lambda>d. has_class b ''active'' d \<longleftrightarrow> has_class n ''nav-show'' d"
  have h: "?I (fst (run_handler h d'))"
    if "(t, ty, k, h) \<in> set (fst (main_js doc []))" and "?I d'" for t ty k h d'
    using loaded_handlers [OF that(1)] that(2) assms(1,2)
    by (auto simp: menu_handler_Some body_handler_Some scroll_handler_frame)
  have st: "?I (step (fst (main_js doc [])) ev d')" if "?I d'" for ev d'
    by (rule step_invariant [where I = ?I]) (use that h in auto)
  show ?thesis
  proof (rule run_invariant [where I = ?I])
    show "?I (step (fst (main_js doc [])) ev d')" if "?I d'" for ev d'
      using that by (rule st)
    show "?I d" using assms by simp
  qed
qed

theorem menu_flags_stay_in_sync_witness:
  "querySelector (sample_dom 500) ''#headerMenu'' = Some 1 \<and>
   querySelector (sample_dom 500) ''#headerNav'' = Some 2 \<and>
   \<not> has_class 1 ''active'' (sample_dom 500) \<and>
   \<not> has_class 2 ''nav-show'' (sample_dom 500) \<and>
   (has_class 1 ''active''
      (run (fst (main_js (sample_dom 500) []))
         [Click [1, 0], Scroll 300 0, Click [5, 0], Click [1, 0]] (sample_dom 500)) \<longleftrightarrow>
    has_class 2 ''nav-show''
      (run (fst (main_js (sample_dom 500) []))
         [Click [1, 0], Scroll 300 0, Click [5, 0], Click [1, 0]] (sample_dom 500))) \<and>
   has_class 1 ''active''
      (run (fst (main_js (sample_dom 500) []))
         [Click [1, 0], Scroll 300 0, Click [5, 0], Click [1, 0]] (sample_dom 500))"
proof -
  have h: "querySelector (sample_dom 500) ''#headerMenu'' = Some 1"
    "querySelector (sample_dom 500) ''#headerNav'' = Some 2"
    "\<not> has_class 1 ''active'' (sample_dom 500)"
    "\<not> has_class 2 ''nav-show'' (sample_dom 500)"
    by (simp_all add: sample_dom_def has_class_def classList_contains_def)
  have open_at_end: "has_class 1 ''active''
      (run (fst (main_js (sample_dom 500) []))
         [Click [1, 0], Scroll 300 0, Click [5, 0], Click [1, 0]] (sample_dom 500))"
    by (simp add: script_defs sample_dom_def step_def bubble.simps run_listeners.simps
      run_handler.simps listeners_at_def add_class_def remove_class_def has_class_def
      classList_contains_def classList_add_def classList_remove_def)
  from menu_flags_stay_in_sync [OF h,
      of "[Click [1, 0], Scroll 300 0, Click [5, 0], Click [1, 0]]"]
    h open_at_end
  show ?thesis by simp
qed

subsection \<open>Idempotence\<close>

text \<open>
  Claim C10. Running the body click listener twice gives the document that running it once
  gives, and so does the scroll listener at unchanged offsets; delivering the same scroll
  event twice to the loaded page gives the document that delivering it once gives. The
  button handler is different: on the closed sample document, running it twice does not
  give what running it once gives.
\<close>

theorem close_and_scroll_are_idempotent:
  "fst (run_handler (BodyClick b nav) (fst (run_handler (BodyClick b nav) d))) =
     fst (run_handler (BodyClick b nav) d) \<and>
   fst (run_handler (WindowScroll t) (fst (run_handler (WindowScroll t) d))) =
     fst (run_handler (WindowScroll t) d) \<and>
   step (fst (main_js doc [])) (Scroll x y) (step (fst (main_js doc [])) (Scroll x y) d) =
     step (fst (main_js doc [])) (Scroll x y) d \<and>
   fst (run_handler (MenuBtnOnclick 1 (Some 2))
         (fst (run_handler (MenuBtnOnclick 1 (Some 2)) (sample_dom 500)))) \<noteq>
     fst (run_handler (MenuBtnOnclick 1 (Some 2)) (sample_dom 500))"
proof (intro conjI)
  show "fst (run_handler (MenuBtnOnclick 1 (Some 2))
         (fst (run_handler (MenuBtnOnclick 1 (Some 2)) (sample_dom 500)))) \<noteq>
     fst (run_handler (MenuBtnOnclick 1 (Some 2)) (sample_dom 500))"
    by (rule menu_handler_toggles_sample)
  show "fst (run_handler (BodyClick b nav) (fst (run_handler (BodyClick b nav) d))) =
     fst (run_handler (BodyClick b nav) d)" by (rule body_handler_idem)
  show "fst (run_handler (WindowScroll t) (fst (run_handler (WindowScroll t) d))) =
     fst (run_handler (WindowScroll t) d)" by (rule scroll_handler_idem)
  show "step (fst (main_js doc [])) (Scroll x y) (step (fst (main_js doc [])) (Scroll x y) d) =
     step (fst (main_js doc [])) (Scroll x y) d"
  proof (cases doc rule: main_js_cases)
    case wide
    show ?thesis
      by (simp add: main_js_wide [OF wide] step_Scroll listeners_at_def run_listeners_Cons_fst
          scroll_after_scroll)
  next
    case (narrow b bd)
    show ?thesis
      by (simp add: main_js_narrow [OF narrow] step_Scroll listeners_at_def run_listeners_Cons_fst
          scroll_after_scroll)
  next
    case no_menu
    show ?thesis
      by (simp add: main_js_no_menu [OF no_menu] step_Scroll listeners_at_def)
  next
    case (no_body b)
    show ?thesis
      by (simp add: main_js_no_body [OF no_body] step_Scroll listeners_at_def)
  qed
qed

end
